theory Spec2Isabelle
  imports Complex_Main "HOL-Library.Sublist"
begin

section \<open>CasinoAnalyzer (src/Hacker.py): the embedding\<close>

text \<open>
  The history is a Python \<^verbatim>\<open>List[str]\<close>: a list of strings, of which the host appends only
  \<^verbatim>\<open>'C'\<close>, \<^verbatim>\<open>'V'\<close> and \<^verbatim>\<open>'E'\<close>, while the class itself accepts any string. A Python
  \<^verbatim>\<open>str\<close> is a \<^typ>\<open>string\<close>; a literal of the source with characters beyond ASCII is
  written as its UTF-8 bytes (the source only concatenates and compares such texts).
  Python's \<^verbatim>\<open>int\<close> is \<^typ>\<open>int\<close>. Python's \<^verbatim>\<open>float\<close> is \<^typ>\<open>rat\<close>, exact. The floats
  the source compares with a literal are a count over 3, 5, 12, 15 or 18, or 60 plus 20
  times such a quotient, or 100 times a count over the number of non-tie outcomes; at each
  threshold (0.8, 0.1, 0.4, 70, 80, 90, 75) the rounded comparison and the exact one
  agree. The strengths and confidences the source only stores are the exact quotients,
  which the floats round.
  A pattern is a \<^verbatim>\<open>dict\<close>; its six keys common to all kinds are plain fields of the record, the
  keys only some kinds carry are optional fields (\<open>None\<close>: the key is absent), and subscripting
  an absent key is a \<open>KeyError\<close>.
\<close>

subsection \<open>Python helpers\<close>

datatype py_error = KeyError string | IndexError

text \<open>\<^verbatim>\<open>xs[-n:]\<close> for \<open>n > 0\<close>: the last \<open>n\<close> elements, the whole list when it is shorter.\<close>

definition py_last :: "nat \<Rightarrow> 'a list \<Rightarrow> 'a list" where
  "py_last n xs = drop (length xs - n) xs"

text \<open>\<^verbatim>\<open>str(n)\<close> of a Python integer, as the f-strings of the source format it.\<close>

fun str_nat :: "nat \<Rightarrow> string" where
  "str_nat n =
     (if n < 10 then [''0123456789'' ! n]
      else str_nat (n div 10) @ [''0123456789'' ! (n mod 10)])"

declare str_nat.simps [simp del]

definition str_int :: "int \<Rightarrow> string" where
  "str_int i = (if i < 0 then ''-'' @ str_nat (nat (- i)) else str_nat (nat i))"

text \<open>\<^verbatim>\<open>[r for r in self.results if r != 'E']\<close>\<close>

definition non_empate :: "string list \<Rightarrow> string list" where
  "non_empate results = filter (\<lambda>r. r \<noteq> ''E'') results"

subsection \<open>Patterns\<close>

record pattern =
  type :: string
  strength :: rat
  risk :: string
  description :: string
  manipulation :: string
  predictability :: rat
  cycle_size :: "int option"
  pattern :: "string option"
  repetitions :: "int option"
  window_size :: "int option"
  balance :: "string option"
  imbalance :: "int option"
  favored_color :: "string option"
  position :: "int option"
  sequence_color :: "string option"
  sequence_length :: "int option"
  from_color :: "string option"
  to_color :: "string option"

text \<open>A dict with the six common keys and no other.\<close>

definition common_keys :: "string \<Rightarrow> rat \<Rightarrow> string \<Rightarrow> string \<Rightarrow> string \<Rightarrow> rat \<Rightarrow> pattern" where
  "common_keys t s r d m p =
     \<lparr>type = t, strength = s, risk = r, description = d, manipulation = m,
      predictability = p, cycle_size = None, pattern = None, repetitions = None,
      window_size = None, balance = None, imbalance = None, favored_color = None,
      position = None, sequence_color = None, sequence_length = None,
      from_color = None, to_color = None\<rparr>"

subsection \<open>analyze\_micro\_patterns\<close>

text \<open>
  \<^verbatim>\<open>sum(1 for i in range(0, 6, 2) if i + 1 < 6 and last6[i] == last6[i + 1] and last6[i] != 'E')\<close>
\<close>

definition double_pattern_count :: "string list \<Rightarrow> int" where
  "double_pattern_count last6 =
     int (length (filter (\<lambda>i. i + 1 < 6 \<and> last6 ! i = last6 ! (i + 1) \<and> last6 ! i \<noteq> ''E'')
                    [0, 2, 4]))"

definition micro_double_pattern :: "int \<Rightarrow> pattern" where
  "micro_double_pattern double_pattern_count' =
     common_keys ''micro_double_pattern''
       (of_int double_pattern_count' / 3)
       (if double_pattern_count' = 3 then ''critical'' else ''high'')
       (''Padr'' @ [CHR 0xC3, CHR 0xA3] @ ''o 2x2 repetitivo ('' @ str_int double_pattern_count' @ ''/3)'')
       (if double_pattern_count' = 3
        then ''CR'' @ [CHR 0xC3, CHR 0x8D] @ ''TICA - Sistema for'' @ [CHR 0xC3, CHR 0xA7]
               @ ''ando padr'' @ [CHR 0xC3, CHR 0xA3] @ ''o''
        else ''ALTA'')
       85"

text \<open>
  \<^verbatim>\<open>sum(1 for i in range(1, min(6, len(last8_non_empate)))
         if last8_non_empate[i] != last8_non_empate[i-1])\<close>
\<close>

definition micro_alternations :: "string list \<Rightarrow> int" where
  "micro_alternations last8_non_empate =
     int (length (filter (\<lambda>i. last8_non_empate ! i \<noteq> last8_non_empate ! (i - 1))
                    [1 ..< min 6 (length last8_non_empate)]))"

definition micro_alternation :: "int \<Rightarrow> pattern" where
  "micro_alternation micro_alternations' =
     common_keys ''micro_alternation''
       (of_int micro_alternations' / 5)
       (if micro_alternations' = 5 then ''critical'' else ''high'')
       (''Micro-alterna'' @ [CHR 0xC3, CHR 0xA7, CHR 0xC3, CHR 0xA3] @ ''o suspeita (''
          @ str_int micro_alternations' @ ''/5)'')
       (''Sistema induzindo altern'' @ [CHR 0xC3, CHR 0xA2] @ ''ncia artificial'')
       90"

definition analyze_micro_patterns :: "string list \<Rightarrow> pattern list" where
  "analyze_micro_patterns results =
     (if length results < 6 then []
      else
        let last6 = py_last 6 results;
            patterns = (if double_pattern_count last6 \<ge> 2
                        then [micro_double_pattern (double_pattern_count last6)] else []);
            last8_non_empate = py_last 8 (non_empate results)
        in if length last8_non_empate \<ge> 6
           then (if micro_alternations last8_non_empate \<ge> 4
                 then patterns @ [micro_alternation (micro_alternations last8_non_empate)]
                 else patterns)
           else patterns)"

subsection \<open>detect\_hidden\_cycles\<close>

text \<open>
  \<^verbatim>\<open>Counter(xs)\<close>: a dict from element to count, in the order of first insertion;
  \<^verbatim>\<open>.items()\<close> is the association list itself.
\<close>

fun counter_add :: "('a \<times> int) list \<Rightarrow> 'a \<Rightarrow> ('a \<times> int) list" where
  "counter_add [] x = [(x, 1)]"
| "counter_add ((k, c) # kcs) x =
     (if k = x then (k, c + 1) # kcs else (k, c) # counter_add kcs x)"

definition Counter :: "'a list \<Rightarrow> ('a \<times> int) list" where
  "Counter xs = foldl counter_add [] xs"

text \<open>
  \<^verbatim>\<open>max(x :: xs, key=key)\<close>: the first element whose key is maximal (a later element
  replaces the best one only when its key is strictly greater).
\<close>

fun py_max_by :: "('a \<Rightarrow> int) \<Rightarrow> 'a \<Rightarrow> 'a list \<Rightarrow> 'a" where
  "py_max_by key best [] = best"
| "py_max_by key best (y # ys) = py_max_by key (if key y > key best then y else best) ys"

text \<open>\<^verbatim>\<open>xs[a:b]\<close> for \<open>0 \<le> a\<close>, \<open>0 \<le> b\<close>.\<close>

definition py_slice :: "nat \<Rightarrow> nat \<Rightarrow> 'a list \<Rightarrow> 'a list" where
  "py_slice a b xs = take (b - a) (drop a xs)"

text \<open>
  \<^verbatim>\<open>[''.join(non_empate[i:i+cycle_size]) for i in range(len(non_empate) - cycle_size + 1)]\<close>
\<close>

definition cycles :: "string list \<Rightarrow> nat \<Rightarrow> string list" where
  "cycles non_empate' cycle_size' =
     map (\<lambda>i. concat (py_slice i (i + cycle_size') non_empate'))
       [0 ..< nat (int (length non_empate') - int cycle_size' + 1)]"

definition hidden_cycle :: "nat \<Rightarrow> string \<Rightarrow> int \<Rightarrow> pattern" where
  "hidden_cycle cycle_size' most_repeated count =
     (common_keys ''hidden_cycle''
        (min (of_int count / 3) 1)
        (if count \<ge> 3 then ''high'' else ''medium'')
        (''Ciclo oculto detectado: '' @ [CHR 0x22] @ most_repeated @ [CHR 0x22] @ '' (''
           @ str_int count @ ''x)'')
        (if count \<ge> 3 then ''Sistema usando ciclo programado''
         else ''Poss'' @ [CHR 0xC3, CHR 0xAD] @ ''vel ciclo induzido'')
        (70 + of_int count * 5))
     \<lparr>cycle_size := Some (int cycle_size'), pattern := Some most_repeated,
      repetitions := Some count\<rparr>"

text \<open>The body of the loop over \<^verbatim>\<open>range(3, 7)\<close>: what one cycle size appends.\<close>

definition hidden_cycles_of_size :: "string list \<Rightarrow> nat \<Rightarrow> pattern list" where
  "hidden_cycles_of_size non_empate' cycle_size' =
     (let cycle_counts = Counter (cycles non_empate' cycle_size');
          repeated = filter (\<lambda>(cycle, count). count \<ge> 2) cycle_counts
      in case repeated of
           [] \<Rightarrow> []
         | r # rs \<Rightarrow>
             (case py_max_by snd r rs of
                (most_repeated, count) \<Rightarrow> [hidden_cycle cycle_size' most_repeated count]))"

definition detect_hidden_cycles :: "string list \<Rightarrow> pattern list" where
  "detect_hidden_cycles results =
     (let non_empate' = non_empate results
      in if length non_empate' < 12 then []
         else concat (map (hidden_cycles_of_size non_empate') [3, 4, 5, 6]))"

subsection \<open>analyze\_compensation\_patterns\<close>

definition artificial_balance :: "nat \<Rightarrow> int \<Rightarrow> int \<Rightarrow> rat \<Rightarrow> pattern" where
  "artificial_balance window_size' c_count v_count balance_ratio =
     (common_keys ''artificial_balance''
        (1 - balance_ratio)
        ''high''
        (''Equil'' @ [CHR 0xC3, CHR 0xAD] @ ''brio artificial em '' @ str_nat window_size'
           @ '' jogadas'')
        (''Sistema for'' @ [CHR 0xC3, CHR 0xA7] @ ''ando distribui''
           @ [CHR 0xC3, CHR 0xA7, CHR 0xC3, CHR 0xA3] @ ''o 50/50'')
        85)
     \<lparr>window_size := Some (int window_size'),
      balance := Some (str_int c_count @ ''C/'' @ str_int v_count @ ''V'')\<rparr>"

definition compensation_pending ::
  "nat \<Rightarrow> int \<Rightarrow> int \<Rightarrow> int \<Rightarrow> rat \<Rightarrow> string \<Rightarrow> pattern" where
  "compensation_pending window_size' c_count v_count imbalance' balance_ratio underrepresented =
     (common_keys ''compensation_pending''
        balance_ratio
        ''medium''
        (''Compensa'' @ [CHR 0xC3, CHR 0xA7, CHR 0xC3, CHR 0xA3] @ ''o pendente: ''
           @ str_int c_count @ ''C vs '' @ str_int v_count @ ''V'')
        (''Sistema deve favorecer '' @ underrepresented)
        (60 + balance_ratio * 20))
     \<lparr>window_size := Some (int window_size'), imbalance := Some imbalance',
      favored_color := Some underrepresented\<rparr>"

text \<open>The body of the loop over \<^verbatim>\<open>windows = [12, 15, 18]\<close>: what one window size appends.\<close>

definition compensation_window :: "string list \<Rightarrow> nat \<Rightarrow> pattern list" where
  "compensation_window non_empate' window_size' =
     (if length non_empate' \<ge> window_size' then
        let window = py_last window_size' non_empate';
            c_count = int (count_list window ''C'');
            v_count = int (count_list window ''V'');
            imbalance' = \<bar>c_count - v_count\<bar>;
            balance_ratio = of_int imbalance' / of_nat window_size'
        in (if balance_ratio < 1 / 10 \<and> window_size' \<ge> 15
            then [artificial_balance window_size' c_count v_count balance_ratio] else [])
           @ (if balance_ratio > 4 / 10
              then [compensation_pending window_size' c_count v_count imbalance' balance_ratio
                      (if c_count < v_count then ''C'' else ''V'')]
              else [])
      else [])"

definition analyze_compensation_patterns :: "string list \<Rightarrow> pattern list" where
  "analyze_compensation_patterns results =
     (let non_empate' = non_empate results
      in if length non_empate' < 20 then []
         else concat (map (compensation_window non_empate') [12, 15, 18]))"

subsection \<open>analyze\_strategic\_ties\<close>

text \<open>
  The run of \<^verbatim>\<open>seq[-1]\<close> that ends the sequence: 1 for the last element, plus the elements
  before it scanned backwards until one differs.
\<close>

definition get_sequence_length :: "string list \<Rightarrow> int" where
  "get_sequence_length seq =
     (if seq = [] then 0
      else 1 + int (length (takeWhile (\<lambda>x. x = last seq) (rev (butlast seq)))))"

definition strategic_tie_after_sequence :: "nat \<Rightarrow> string list \<Rightarrow> pattern" where
  "strategic_tie_after_sequence tie_pos before =
     (common_keys ''strategic_tie_after_sequence''
        (7 / 10)
        ''high''
        (''Empate estrat'' @ [CHR 0xC3, CHR 0xA9] @ ''gico ap'' @ [CHR 0xC3, CHR 0xB3] @ ''s ''
           @ str_int (get_sequence_length before) @ ''x '' @ last before)
        ''Empate usado para quebrar momentum''
        75)
     \<lparr>position := Some (int tie_pos), sequence_color := Some (last before),
      sequence_length := Some (get_sequence_length before)\<rparr>"

definition strategic_tie_before_reversal :: "nat \<Rightarrow> string \<Rightarrow> string \<Rightarrow> pattern" where
  "strategic_tie_before_reversal tie_pos before_color after_color =
     (common_keys ''strategic_tie_before_reversal''
        (8 / 10)
        ''high''
        (''Empate estrat'' @ [CHR 0xC3, CHR 0xA9] @ ''gico antes de revers''
           @ [CHR 0xC3, CHR 0xA3] @ ''o '' @ before_color @ '' '' @ [CHR 0xE2, CHR 0x86, CHR 0x92]
           @ '' '' @ after_color)
        (''Empate usado para mascarar mudan'' @ [CHR 0xC3, CHR 0xA7] @ ''a direcionada'')
        80)
     \<lparr>position := Some (int tie_pos), from_color := Some before_color,
      to_color := Some after_color\<rparr>"

text \<open>The body of the loop over \<^verbatim>\<open>tie_positions\<close>: what one tie position appends.\<close>

definition tie_patterns :: "string list \<Rightarrow> nat \<Rightarrow> pattern list" where
  "tie_patterns results tie_pos =
     (if tie_pos \<ge> 3 then
        let before = py_slice (max 0 (tie_pos - 3)) tie_pos results;
            after = py_slice (tie_pos + 1) (tie_pos + 4) results
        in (if length before \<ge> 2 \<and> last before = before ! (length before - 2)
               \<and> last before \<noteq> ''E''
            then [strategic_tie_after_sequence tie_pos before] else [])
           @ (if length after \<ge> 2 \<and> length before \<ge> 1 \<and> last before \<noteq> ''E''
                 \<and> hd after \<noteq> ''E''
              then (if last before \<noteq> hd after
                    then [strategic_tie_before_reversal tie_pos (last before) (hd after)]
                    else [])
              else [])
      else [])"

definition analyze_strategic_ties :: "string list \<Rightarrow> pattern list" where
  "analyze_strategic_ties results =
     (if length results < 8 then []
      else
        let tie_positions = filter (\<lambda>i. results ! i = ''E'') [0 ..< length results]
        in concat (map (tie_patterns results) tie_positions))"

subsection \<open>assess\_risk and detect\_manipulation\<close>

record risk_assessment =
  level :: string
  score :: int
  factors :: "string list"

record manipulation_assessment =
  level :: string
  score :: int
  signs :: "string list"

text \<open>\<^verbatim>\<open>pattern.get('repetitions', 0)\<close>\<close>

definition get_repetitions :: "pattern \<Rightarrow> int" where
  "get_repetitions p = (case repetitions p of None \<Rightarrow> 0 | Some n \<Rightarrow> n)"

text \<open>
  One round of the loop of \<^verbatim>\<open>assess_risk\<close> on \<^verbatim>\<open>(risk_score, risk_factors)\<close>: the
  \<^verbatim>\<open>if\<close>/\<^verbatim>\<open>elif\<close> chain, first match.
\<close>

definition risk_step :: "int \<times> string list \<Rightarrow> pattern \<Rightarrow> int \<times> string list" where
  "risk_step acc p =
     (case acc of (risk_score, risk_factors) \<Rightarrow>
        if type p = ''micro_double_pattern'' \<and> strength p \<ge> 8 / 10 then
          (risk_score + 70,
           risk_factors @ [[CHR 0xF0, CHR 0x9F, CHR 0x9A, CHR 0xA8] @ '' Padr''
             @ [CHR 0xC3, CHR 0xA3] @ ''o 2x2 cr'' @ [CHR 0xC3, CHR 0xAD] @ ''tico detectado''])
        else if type p = ''micro_alternation'' \<and> strength p \<ge> 8 / 10 then
          (risk_score + 65,
           risk_factors @ [[CHR 0xE2, CHR 0x9A, CHR 0xA0, CHR 0xEF, CHR 0xB8, CHR 0x8F]
             @ '' Alterna'' @ [CHR 0xC3, CHR 0xA7, CHR 0xC3, CHR 0xA3] @ ''o artificial cr''
             @ [CHR 0xC3, CHR 0xAD] @ ''tica''])
        else if type p = ''hidden_cycle'' \<and> get_repetitions p \<ge> 3 then
          (risk_score + 60,
           risk_factors @ [[CHR 0xF0, CHR 0x9F, CHR 0x94, CHR 0x84] @ '' Ciclo programado ativo (''
             @ (case repetitions p of None \<Rightarrow> ''None'' | Some n \<Rightarrow> str_int n) @ ''x)''])
        else if type p = ''artificial_balance'' then
          (risk_score + 55,
           risk_factors @ [[CHR 0xE2, CHR 0x9A, CHR 0x96, CHR 0xEF, CHR 0xB8, CHR 0x8F]
             @ '' Equil'' @ [CHR 0xC3, CHR 0xAD] @ ''brio artificial for'' @ [CHR 0xC3, CHR 0xA7]
             @ ''ado''])
        else if type p = ''intentional_break'' then
          (risk_score + 50,
           risk_factors @ [[CHR 0xF0, CHR 0x9F, CHR 0x92, CHR 0xA5]
             @ '' Quebra intencional detectada''])
        else if prefix ''strategic_tie'' (type p) then
          (risk_score + 40,
           risk_factors @ [[CHR 0xF0, CHR 0x9F, CHR 0x94, CHR 0xB6] @ '' Empate estrat''
             @ [CHR 0xC3, CHR 0xA9] @ ''gico detectado''])
        else (risk_score, risk_factors))"

definition assess_risk :: "pattern list \<Rightarrow> risk_assessment" where
  "assess_risk patterns =
     (case foldl risk_step (0, []) patterns of (risk_score, risk_factors) \<Rightarrow>
        \<lparr>risk_assessment.level =
           (if risk_score \<ge> 80 then ''critical''
            else if risk_score \<ge> 55 then ''high''
            else if risk_score \<ge> 30 then ''medium''
            else ''low''),
         risk_assessment.score = min risk_score 100,
         factors = risk_factors\<rparr>)"

text \<open>
  One round of the loop of \<^verbatim>\<open>detect_manipulation\<close> on
  \<^verbatim>\<open>(manipulation_score, manipulation_signs)\<close>. Every pattern has the key
  \<^verbatim>\<open>'predictability'\<close>, so the default of \<^verbatim>\<open>.get\<close> is never taken.
\<close>

definition manipulation_step :: "int \<times> string list \<Rightarrow> pattern \<Rightarrow> int \<times> string list" where
  "manipulation_step acc p =
     (case acc of (manipulation_score, manipulation_signs) \<Rightarrow>
        if predictability p \<ge> 90 then
          (manipulation_score + 80,
           manipulation_signs @ [[CHR 0xF0, CHR 0x9F, CHR 0xA4, CHR 0x96] @ '' Padr''
             @ [CHR 0xC3, CHR 0xA3] @ ''o altamente artificial: '' @ description p])
        else if predictability p \<ge> 80 then
          (manipulation_score + 60,
           manipulation_signs @ [[CHR 0xF0, CHR 0x9F, CHR 0x8E, CHR 0xAF] @ '' Padr''
             @ [CHR 0xC3, CHR 0xA3] @ ''o programado: '' @ description p])
        else if predictability p \<ge> 70 then
          (manipulation_score + 40,
           manipulation_signs @ [[CHR 0xE2, CHR 0x9A, CHR 0x99, CHR 0xEF, CHR 0xB8, CHR 0x8F]
             @ '' Padr'' @ [CHR 0xC3, CHR 0xA3] @ ''o suspeito: '' @ description p])
        else (manipulation_score, manipulation_signs))"

text \<open>The parameter \<^verbatim>\<open>risk\<close> of the source is never read.\<close>

definition detect_manipulation :: "pattern list \<Rightarrow> risk_assessment \<Rightarrow> manipulation_assessment" where
  "detect_manipulation patterns risk' =
     (case foldl manipulation_step (0, []) patterns of
        (manipulation_score, manipulation_signs) \<Rightarrow>
        \<lparr>manipulation_assessment.level =
           (if manipulation_score \<ge> 80 then ''critical''
            else if manipulation_score \<ge> 60 then ''high''
            else if manipulation_score \<ge> 35 then ''medium''
            else ''low''),
         manipulation_assessment.score = min manipulation_score 100,
         signs = manipulation_signs\<rparr>)"

subsection \<open>make\_prediction and predict\_next\_in\_cycle\<close>

record prediction =
  color :: "string option"
  confidence :: rat
  reasoning :: string
  strategy :: string

text \<open>
  The loop of \<^verbatim>\<open>predict_next_in_cycle\<close>: the index at which it breaks, or the length of
  the history when it runs to its end. The source reads nothing of the loop afterwards.
\<close>

definition cycle_scan :: "string \<Rightarrow> string list \<Rightarrow> nat" where
  "cycle_scan pattern' non_empate' =
     length (takeWhile (\<lambda>i. non_empate' ! i = [pattern' ! (i mod length pattern')])
               [0 ..< length non_empate'])"

definition predict_next_in_cycle :: "string list \<Rightarrow> string \<Rightarrow> string option" where
  "predict_next_in_cycle results pattern' =
     (let non_empate' = non_empate results
      in if pattern' = [] \<or> non_empate' = [] then None
         else
           let cycle_len = length pattern';
               scanned = cycle_scan pattern' non_empate';
               pos = length non_empate' mod cycle_len
           in if pos < cycle_len then Some [pattern' ! pos] else None)"

text \<open>\<^verbatim>\<open>counter.most_common(1)[0]\<close>: the first item with the greatest count.\<close>

definition most_common_1 :: "('a \<times> int) list \<Rightarrow> py_error + ('a \<times> int)" where
  "most_common_1 counter = (case counter of [] \<Rightarrow> Inl IndexError | kc # kcs \<Rightarrow> Inr (py_max_by snd kc kcs))"

text \<open>
  Lines 253 to 263 of \<^verbatim>\<open>make_prediction\<close>, the cycle branch. \<open>Inr None\<close>: the branch does not
  return, and the source goes on to the fallback. A \<^verbatim>\<open>str\<close> is true when it is not empty.
\<close>

definition follow_cycle ::
  "string list \<Rightarrow> pattern list \<Rightarrow> risk_assessment \<Rightarrow> manipulation_assessment \<Rightarrow> prediction
     \<Rightarrow> py_error + prediction option" where
  "follow_cycle results patterns risk' manipulation' prediction =
     (case find (\<lambda>p. type p = ''hidden_cycle'' \<and> get_repetitions p \<ge> 2) patterns of
        None \<Rightarrow> Inr None
      | Some cycle_pattern \<Rightarrow>
          if risk_assessment.level risk' = ''low''
             \<and> manipulation_assessment.level manipulation' = ''low'' then
            (case pattern cycle_pattern of
               None \<Rightarrow> Inl (KeyError ''pattern'')
             | Some cycle_string \<Rightarrow>
                 (case predict_next_in_cycle results cycle_string of
                    None \<Rightarrow> Inr None
                  | Some next_color \<Rightarrow>
                      if next_color = [] then Inr None
                      else
                        (case repetitions cycle_pattern of
                           None \<Rightarrow> Inl (KeyError ''repetitions'')
                         | Some reps \<Rightarrow>
                             Inr (Some (prediction\<lparr>color := Some next_color,
                               confidence := min 70 (50 + of_int reps * 5),
                               reasoning := ''Ciclo detectado: '' @ [CHR 0x22] @ cycle_string
                                 @ [CHR 0x22] @ '' ('' @ str_int reps @ ''x)'',
                               strategy := ''SEGUIR CICLO''\<rparr>)))))
          else Inr None)"

text \<open>Lines 265 to 278 of \<^verbatim>\<open>make_prediction\<close>, the fallback.\<close>

definition bet_on_dominant :: "string list \<Rightarrow> prediction \<Rightarrow> py_error + prediction" where
  "bet_on_dominant results prediction =
     (let non_empate' = non_empate results
      in if non_empate' = [] then Inr prediction
         else
           case most_common_1 (Counter non_empate') of
             Inl e \<Rightarrow> Inl e
           | Inr (most_common_color, count) \<Rightarrow>
               let confidence' = (of_int count / of_nat (length non_empate')) * 100
               in Inr (prediction\<lparr>color := Some most_common_color,
                    confidence := min confidence' 75,
                    reasoning := ''Aposta baseada em frequ'' @ [CHR 0xC3, CHR 0xAA]
                      @ ''ncia hist'' @ [CHR 0xC3, CHR 0xB3] @ ''rica de '' @ [CHR 0x22]
                      @ most_common_color @ [CHR 0x22] @ '' ('' @ str_int count @ ''/''
                      @ str_nat (length non_empate') @ '')'',
                    strategy := ''APOSTAR NA PRINCIPAL COR''\<rparr>))"

definition make_prediction ::
  "string list \<Rightarrow> pattern list \<Rightarrow> risk_assessment \<Rightarrow> manipulation_assessment
     \<Rightarrow> py_error + prediction" where
  "make_prediction results patterns risk' manipulation' =
     (let prediction = \<lparr>color = None, confidence = 0, reasoning = [],
            strategy = ''AGUARDAR MELHORES CONDI'' @ [CHR 0xC3, CHR 0x87, CHR 0xC3, CHR 0x95]
              @ ''ES''\<rparr>
      in
      if risk_assessment.level risk' = ''critical''
         \<or> manipulation_assessment.level manipulation' = ''critical'' then
        Inr (prediction\<lparr>reasoning := [CHR 0xF0, CHR 0x9F, CHR 0x9A, CHR 0xA8] @ '' CONDI''
               @ [CHR 0xC3, CHR 0x87, CHR 0xC3, CHR 0x95] @ ''ES CR'' @ [CHR 0xC3, CHR 0x8D]
               @ ''TICAS - Manipula'' @ [CHR 0xC3, CHR 0xA7, CHR 0xC3, CHR 0xA3] @ ''o m''
               @ [CHR 0xC3, CHR 0xA1] @ ''xima detectada'',
             strategy := ''PARAR COMPLETAMENTE''\<rparr>)
      else if manipulation_assessment.level manipulation' = ''high'' then
        Inr (prediction\<lparr>reasoning := [CHR 0xE2, CHR 0x9B, CHR 0x94] @ '' Manipula''
               @ [CHR 0xC3, CHR 0xA7, CHR 0xC3, CHR 0xA3] @ ''o alta - Evitar apostas'',
             strategy := ''AGUARDAR NORMALIZA'' @ [CHR 0xC3, CHR 0x87, CHR 0xC3, CHR 0x83]
               @ ''O''\<rparr>)
      else
        case (case find (\<lambda>p. type p = ''compensation_pending'') patterns of
                Some compensation_pattern \<Rightarrow>
                  if risk_assessment.level risk' = ''low''
                     \<and> manipulation_assessment.level manipulation' = ''low''
                  then Some compensation_pattern else None
              | None \<Rightarrow> None) of
          Some compensation_pattern \<Rightarrow>
            (case favored_color compensation_pattern of
               None \<Rightarrow> Inl (KeyError ''favored_color'')
             | Some color' \<Rightarrow>
                 Inr (prediction\<lparr>color := Some color',
                        confidence := min 75 (55 + strength compensation_pattern * 20),
                        reasoning := ''Compensa'' @ [CHR 0xC3, CHR 0xA7, CHR 0xC3, CHR 0xA3]
                          @ ''o estat'' @ [CHR 0xC3, CHR 0xAD] @ ''stica esperada: ''
                          @ description compensation_pattern,
                        strategy := ''APOSTAR COMPENSA'' @ [CHR 0xC3, CHR 0x87, CHR 0xC3, CHR 0x83]
                          @ ''O''\<rparr>))
        | None \<Rightarrow>
            (case follow_cycle results patterns risk' manipulation' prediction of
               Inl e \<Rightarrow> Inl e
             | Inr (Some followed) \<Rightarrow> Inr followed
             | Inr None \<Rightarrow> bet_on_dominant results prediction))"

subsection \<open>The pipeline\<close>

text \<open>
  Lines 328 to 340 of \<^verbatim>\<open>main\<close>, the operation the specification calls \<^verbatim>\<open>analyze\<close>: the
  four detectors, their patterns concatenated, the two scorers and the predictor. The
  result is \<^verbatim>\<open>(patterns, risk, manipulation, prediction)\<close>. (\<^verbatim>\<open>main\<close> itself runs these
  lines only when the history is not empty.)
\<close>

definition analyze ::
  "string list
     \<Rightarrow> py_error + (pattern list \<times> risk_assessment \<times> manipulation_assessment \<times> prediction)" where
  "analyze history =
     (let micro_patterns = analyze_micro_patterns history;
          hidden_cycles = detect_hidden_cycles history;
          compensation_patterns = analyze_compensation_patterns history;
          strategic_ties = analyze_strategic_ties history;
          patterns = micro_patterns @ hidden_cycles @ compensation_patterns @ strategic_ties;
          risk' = assess_risk patterns;
          manipulation' = detect_manipulation patterns risk'
      in case make_prediction history patterns risk' manipulation' of
           Inl e \<Rightarrow> Inl e
         | Inr prediction \<Rightarrow> Inr (patterns, risk', manipulation', prediction))"

subsection \<open>Reference notions of the specification\<close>

text \<open>
  The number of adjacent pairs of a list that differ, by recursion on the list: what the
  specification's micro-alternation check counts, stated without indices.
\<close>

fun adjacent_differences :: "'a list \<Rightarrow> nat" where
  "adjacent_differences (x # y # zs) = (if x \<noteq> y then 1 else 0) + adjacent_differences (y # zs)"
| "adjacent_differences [x] = 0"
| "adjacent_differences [] = 0"

text \<open>
  The dominant outcome's share of the non-tie outcomes: the greatest number of occurrences
  of one outcome among them, over their number.
\<close>

definition dominant_count :: "string list \<Rightarrow> nat" where
  "dominant_count xs = (if xs = [] then 0 else Max (set (map (count_list xs) xs)))"


section \<open>Properties\<close>

subsection \<open>The scorers never decrease their running totals\<close>

lemma risk_step_mono: "fst acc \<le> fst (risk_step acc p)"
  by (cases acc) (simp add: risk_step_def)

lemma foldl_risk_step_mono: "fst acc \<le> fst (foldl risk_step acc ps)"
proof (induction ps arbitrary: acc)
  case Nil
  show ?case by simp
next
  case (Cons p ps)
  have "fst acc \<le> fst (risk_step acc p)" by (rule risk_step_mono)
  also have "\<dots> \<le> fst (foldl risk_step (risk_step acc p) ps)" by (rule Cons.IH)
  finally show ?case by simp
qed

lemma manipulation_step_mono: "fst acc \<le> fst (manipulation_step acc p)"
  by (cases acc) (simp add: manipulation_step_def)

lemma foldl_manipulation_step_mono: "fst acc \<le> fst (foldl manipulation_step acc ps)"
proof (induction ps arbitrary: acc)
  case Nil
  show ?case by simp
next
  case (Cons p ps)
  have "fst acc \<le> fst (manipulation_step acc p)" by (rule manipulation_step_mono)
  also have "\<dots> \<le> fst (foldl manipulation_step (manipulation_step acc p) ps)" by (rule Cons.IH)
  finally show ?case by simp
qed

lemma assess_risk_score: "risk_assessment.score (assess_risk ps) = min (fst (foldl risk_step (0, []) ps)) 100"
  by (simp add: assess_risk_def split: prod.splits)

lemma detect_manipulation_score:
  "manipulation_assessment.score (detect_manipulation ps r) = min (fst (foldl manipulation_step (0, []) ps)) 100"
  by (simp add: detect_manipulation_def split: prod.splits)

text \<open>
  C8: for every pattern list the scores of \<^const>\<open>assess_risk\<close> and \<^const>\<open>detect_manipulation\<close>
  lie between 0 and 100, and on the empty list both give score 0, level low and no factor
  or sign.
\<close>

theorem C8_scores_in_range:
  "0 \<le> risk_assessment.score (assess_risk ps) \<and> risk_assessment.score (assess_risk ps) \<le> 100
   \<and> 0 \<le> manipulation_assessment.score (detect_manipulation ps r)
   \<and> manipulation_assessment.score (detect_manipulation ps r) \<le> 100
   \<and> assess_risk [] = \<lparr>risk_assessment.level = ''low'', score = 0, factors = []\<rparr>
   \<and> detect_manipulation [] r = \<lparr>manipulation_assessment.level = ''low'', score = 0, signs = []\<rparr>"
proof -
  have "0 \<le> fst (foldl risk_step (0, []) ps)"
    using foldl_risk_step_mono [of "(0, [])" ps] by simp
  moreover have "0 \<le> fst (foldl manipulation_step (0, []) ps)"
    using foldl_manipulation_step_mono [of "(0, [])" ps] by simp
  moreover have "assess_risk [] = \<lparr>risk_assessment.level = ''low'', score = 0, factors = []\<rparr>"
    by (simp add: assess_risk_def)
  moreover have "detect_manipulation [] r = \<lparr>manipulation_assessment.level = ''low'', score = 0, signs = []\<rparr>"
    by (simp add: detect_manipulation_def)
  ultimately show ?thesis
    by (simp add: assess_risk_score detect_manipulation_score)
qed

subsection \<open>Short histories\<close>

text \<open>
  C7: a history shorter than 6 gives no micro pattern, fewer than 12 non-tie outcomes give
  no hidden cycle, fewer than 20 non-tie outcomes give no compensation pattern, and a
  history shorter than 8 gives no strategic tie. The detectors return the empty list; they
  have no error result.
\<close>

theorem C7_minimum_length:
  "(length h < 6 \<longrightarrow> analyze_micro_patterns h = [])
   \<and> (length (non_empate h) < 12 \<longrightarrow> detect_hidden_cycles h = [])
   \<and> (length (non_empate h) < 20 \<longrightarrow> analyze_compensation_patterns h = [])
   \<and> (length h < 8 \<longrightarrow> analyze_strategic_ties h = [])"
  by (simp add: analyze_micro_patterns_def detect_hidden_cycles_def
      analyze_compensation_patterns_def analyze_strategic_ties_def Let_def)

text \<open>The history C, V, E, C, C is below all four minimum lengths.\<close>

theorem C7_minimum_length_witness:
  "length [''C'', ''V'', ''E'', ''C'', ''C''] < 6
   \<and> analyze_micro_patterns [''C'', ''V'', ''E'', ''C'', ''C''] = []
   \<and> length (non_empate [''C'', ''V'', ''E'', ''C'', ''C'']) < 12
   \<and> detect_hidden_cycles [''C'', ''V'', ''E'', ''C'', ''C''] = []
   \<and> length (non_empate [''C'', ''V'', ''E'', ''C'', ''C'']) < 20
   \<and> analyze_compensation_patterns [''C'', ''V'', ''E'', ''C'', ''C''] = []
   \<and> length [''C'', ''V'', ''E'', ''C'', ''C''] < 8
   \<and> analyze_strategic_ties [''C'', ''V'', ''E'', ''C'', ''C''] = []"
proof -
  have a: "length [''C'', ''V'', ''E'', ''C'', ''C''] < 6" by simp
  have b: "length (non_empate [''C'', ''V'', ''E'', ''C'', ''C'']) < 12"
    by (simp add: non_empate_def)
  have c: "length (non_empate [''C'', ''V'', ''E'', ''C'', ''C'']) < 20"
    by (simp add: non_empate_def)
  have d: "length [''C'', ''V'', ''E'', ''C'', ''C''] < 8" by simp
  from C7_minimum_length [of "[''C'', ''V'', ''E'', ''C'', ''C'']"] a b c d
  show ?thesis by blast
qed

subsection \<open>The micro-alternation check\<close>

lemma upt_1_Suc_Suc: "[Suc 0 ..< Suc (Suc n)] = Suc 0 # map Suc [Suc 0 ..< Suc n]"
proof -
  have "[Suc 0 ..< Suc (Suc n)] = Suc 0 # [Suc (Suc 0) ..< Suc (Suc n)]"
    by (simp add: upt_conv_Cons)
  also have "[Suc (Suc 0) ..< Suc (Suc n)] = map Suc [Suc 0 ..< Suc n]"
    by (simp only: map_Suc_upt)
  finally show ?thesis .
qed

lemma index_count_adjacent:
  "length (filter (\<lambda>i. xs ! i \<noteq> xs ! (i - 1)) [1 ..< length xs]) = adjacent_differences xs"
proof (induction xs rule: adjacent_differences.induct)
  case (1 x y zs)
  have shift: "filter ((\<lambda>i. (x # y # zs) ! i \<noteq> (x # y # zs) ! (i - 1)) \<circ> Suc) [1 ..< Suc (length zs)]
      = filter (\<lambda>i. (y # zs) ! i \<noteq> (y # zs) ! (i - 1)) [1 ..< Suc (length zs)]"
  proof (rule filter_cong [OF refl])
    fix i assume "i \<in> set [1 ..< Suc (length zs)]"
    then have "1 \<le> i" by (simp only: set_upt atLeastLessThan_iff)
    then obtain j where "i = Suc j" by (cases i) simp_all
    then show "((\<lambda>i. (x # y # zs) ! i \<noteq> (x # y # zs) ! (i - 1)) \<circ> Suc) i
        = ((y # zs) ! i \<noteq> (y # zs) ! (i - 1))"
      by simp
  qed
  have "length (filter (\<lambda>i. (x # y # zs) ! i \<noteq> (x # y # zs) ! (i - 1)) [1 ..< length (x # y # zs)])
      = (if x \<noteq> y then 1 else 0)
        + length (filter ((\<lambda>i. (x # y # zs) ! i \<noteq> (x # y # zs) ! (i - 1)) \<circ> Suc)
            [1 ..< Suc (length zs)])"
    by (simp add: upt_1_Suc_Suc filter_map del: upt_Suc)
  also have "\<dots> = (if x \<noteq> y then 1 else 0) + adjacent_differences (y # zs)"
    using "1.IH" by (simp only: shift) simp
  finally show ?case by simp
qed simp_all

lemma micro_alternations_take:
  "micro_alternations xs = int (adjacent_differences (take 6 xs))"
proof -
  have "filter (\<lambda>i. xs ! i \<noteq> xs ! (i - 1)) [1 ..< min 6 (length xs)]
      = filter (\<lambda>i. take 6 xs ! i \<noteq> take 6 xs ! (i - 1)) [1 ..< length (take 6 xs)]"
    by (rule filter_cong) (auto simp add: min.commute)
  then show ?thesis
    by (simp only: micro_alternations_def index_count_adjacent)
qed

lemma length_py_last_le: "length (py_last n xs) \<le> length xs"
  by (simp add: py_last_def)

lemma length_non_empate_le: "length (non_empate h) \<le> length h"
  by (simp add: non_empate_def)

text \<open>
  C1, as the code has it: with at least 6 of the last 8 non-tie outcomes available, the
  detector counts the adjacent pairs that differ among the FIRST 6 of those up to 8
  outcomes (indices 0 to 5, the oldest ones), and emits exactly one micro\_alternation
  pattern when that count is at least 4, none otherwise; its strength is count/5, its risk
  critical when the count is 5 and high otherwise, its predictability 90.
\<close>

theorem C1_micro_alternation_first_six:
  assumes "6 \<le> length (py_last 8 (non_empate h))"
  shows "let n = adjacent_differences (take 6 (py_last 8 (non_empate h))) in
           filter (\<lambda>p. type p = ''micro_alternation'') (analyze_micro_patterns h)
             = (if 4 \<le> n then [micro_alternation (int n)] else [])
           \<and> type (micro_alternation (int n)) = ''micro_alternation''
           \<and> strength (micro_alternation (int n)) = rat_of_nat n / 5
           \<and> risk (micro_alternation (int n)) = (if n = 5 then ''critical'' else ''high'')
           \<and> predictability (micro_alternation (int n)) = 90"
proof -
  have "length (py_last 8 (non_empate h)) \<le> length h"
    using length_py_last_le [of 8 "non_empate h"] length_non_empate_le [of h] by linarith
  with assms have len: "\<not> length h < 6" by linarith
  have fields: "type (micro_alternation k) = ''micro_alternation''"
    "strength (micro_alternation k) = rat_of_int k / 5"
    "risk (micro_alternation k) = (if k = 5 then ''critical'' else ''high'')"
    "predictability (micro_alternation k) = 90" for k
    by (simp_all add: micro_alternation_def common_keys_def)
  have other: "type (micro_double_pattern k) \<noteq> ''micro_alternation''" for k
    by (simp add: micro_double_pattern_def common_keys_def)
  show ?thesis
    using assms len
    by (simp add: analyze_micro_patterns_def Let_def micro_alternations_take fields other)
qed

text \<open>
  In C, V, C, V, C, V, V, V the first six of the last eight alternate five times and the
  last six only three times: the pattern is emitted, with risk critical.
\<close>

theorem C1_micro_alternation_first_six_witness:
  "6 \<le> length (py_last 8 (non_empate [''C'', ''V'', ''C'', ''V'', ''C'', ''V'', ''V'', ''V'']))
   \<and> adjacent_differences (py_last 6 (py_last 8 (non_empate
         [''C'', ''V'', ''C'', ''V'', ''C'', ''V'', ''V'', ''V'']))) = 3
   \<and> filter (\<lambda>p. type p = ''micro_alternation'')
        (analyze_micro_patterns [''C'', ''V'', ''C'', ''V'', ''C'', ''V'', ''V'', ''V''])
      = [micro_alternation 5]
   \<and> risk (micro_alternation 5) = ''critical''"
proof -
  have a: "6 \<le> length (py_last 8 (non_empate [''C'', ''V'', ''C'', ''V'', ''C'', ''V'', ''V'', ''V'']))"
    by code_simp
  have n: "adjacent_differences (take 6 (py_last 8 (non_empate
      [''C'', ''V'', ''C'', ''V'', ''C'', ''V'', ''V'', ''V'']))) = 5"
    by code_simp
  have l: "adjacent_differences (py_last 6 (py_last 8 (non_empate
      [''C'', ''V'', ''C'', ''V'', ''C'', ''V'', ''V'', ''V'']))) = 3"
    by code_simp
  from C1_micro_alternation_first_six [OF a] a l show ?thesis
    by (simp add: Let_def n)
qed

text \<open>
  C1 as the specification words it (the LAST 6 of the up to 8) fails: in
  C, C, C, V, C, V, C, V the last six non-tie outcomes alternate five times, and the
  detector emits nothing.
\<close>

theorem C1_last_six_counterexample:
  "6 \<le> length (py_last 8 (non_empate [''C'', ''C'', ''C'', ''V'', ''C'', ''V'', ''C'', ''V'']))
   \<and> adjacent_differences (py_last 6 (py_last 8 (non_empate
         [''C'', ''C'', ''C'', ''V'', ''C'', ''V'', ''C'', ''V'']))) = 5
   \<and> analyze_micro_patterns [''C'', ''C'', ''C'', ''V'', ''C'', ''V'', ''C'', ''V''] = []"
  by code_simp

subsection \<open>The 2x2 scenario\<close>

text \<open>
  C2, as the code has it: the last 6 outcomes of C, C, V, V, E, C, C, V, V, C, V, V are
  C, V, V, C, V, V; of the pairs (C,V), (V,C), (V,V) one is equal and not a tie, so the
  count is 1 and the detector emits no pattern at all.
\<close>

theorem C2_scenario_last_six:
  "py_last 6 [''C'', ''C'', ''V'', ''V'', ''E'', ''C'', ''C'', ''V'', ''V'', ''C'', ''V'', ''V'']
     = [''C'', ''V'', ''V'', ''C'', ''V'', ''V'']
   \<and> double_pattern_count
        (py_last 6 [''C'', ''C'', ''V'', ''V'', ''E'', ''C'', ''C'', ''V'', ''V'', ''C'', ''V'', ''V'']) = 1
   \<and> analyze_micro_patterns
        [''C'', ''C'', ''V'', ''V'', ''E'', ''C'', ''C'', ''V'', ''V'', ''C'', ''V'', ''V''] = []"
  by code_simp

text \<open>
  C2 as stated fails: the count is not 2, and the micro\_double\_pattern of count 2 is not
  among the detector's patterns for that history.
\<close>

theorem C2_scenario_counterexample:
  "double_pattern_count
     (py_last 6 [''C'', ''C'', ''V'', ''V'', ''E'', ''C'', ''C'', ''V'', ''V'', ''C'', ''V'', ''V'']) \<noteq> 2
   \<and> micro_double_pattern 2 \<notin> set (analyze_micro_patterns
        [''C'', ''C'', ''V'', ''V'', ''E'', ''C'', ''C'', ''V'', ''V'', ''C'', ''V'', ''V''])"
  by code_simp

subsection \<open>The predictor\<close>

text \<open>
  C5: when the risk level or the manipulation level is critical, the predictor returns no
  color, confidence 0 and the strategy PARAR COMPLETAMENTE, whatever the history and the
  patterns.
\<close>

theorem C5_critical_stops:
  "risk_assessment.level r = ''critical'' \<or> manipulation_assessment.level m = ''critical'' \<Longrightarrow>
   \<exists>p. make_prediction h ps r m = Inr p \<and> color p = None \<and> confidence p = 0
       \<and> strategy p = ''PARAR COMPLETAMENTE''"
  by (auto simp add: make_prediction_def)

text \<open>
  A critical risk with a compensation\_pending and a hidden\_cycle pattern present, and a
  low manipulation level.
\<close>

theorem C5_critical_stops_witness:
  "risk_assessment.level \<lparr>risk_assessment.level = ''critical'', score = 100, factors = []\<rparr>
     = ''critical''
   \<and> type (compensation_pending 15 11 4 7 (7 / 15) ''V'') = ''compensation_pending''
   \<and> type (hidden_cycle 3 ''CVV'' 2) = ''hidden_cycle''
   \<and> (\<exists>p. make_prediction (replicate 16 ''C'' @ replicate 4 ''V'')
             [compensation_pending 15 11 4 7 (7 / 15) ''V'', hidden_cycle 3 ''CVV'' 2]
             \<lparr>risk_assessment.level = ''critical'', score = 100, factors = []\<rparr>
             \<lparr>manipulation_assessment.level = ''low'', score = 0, signs = []\<rparr> = Inr p
          \<and> color p = None \<and> confidence p = 0 \<and> strategy p = ''PARAR COMPLETAMENTE'')"
proof -
  have a: "risk_assessment.level \<lparr>risk_assessment.level = ''critical'', score = 100, factors = []\<rparr>
      = ''critical''"
    by simp
  have b: "type (compensation_pending 15 11 4 7 (7 / 15) ''V'') = ''compensation_pending''"
    by (simp add: compensation_pending_def common_keys_def)
  have c: "type (hidden_cycle 3 ''CVV'' 2) = ''hidden_cycle''"
    by (simp add: hidden_cycle_def common_keys_def)
  from C5_critical_stops [OF disjI1, OF a] a b c show ?thesis by blast
qed

subsection \<open>Cycle continuation\<close>

lemma predict_next_in_cycle_value:
  "pat \<noteq> [] \<Longrightarrow> non_empate h \<noteq> [] \<Longrightarrow>
   predict_next_in_cycle h pat = Some [pat ! (length (non_empate h) mod length pat)]"
  by (simp add: predict_next_in_cycle_def Let_def)

text \<open>
  C4: for a non-empty cycle string and a history with a non-tie outcome, the next symbol
  is the character of the cycle string at index (number of non-tie outcomes) mod (length
  of the string), whatever the history (a mismatch while scanning changes nothing). When
  moreover both levels are low, no compensation\_pending pattern is present (so that the
  predictor gets to its cycle branch) and the first hidden\_cycle pattern with at least 2
  repetitions carries that string, the predictor returns that symbol with confidence
  min(70, 50 + 5 * repetitions) and the strategy SEGUIR CICLO.
\<close>

theorem C4_cycle_continuation:
  "(pat \<noteq> [] \<and> non_empate h \<noteq> [] \<longrightarrow>
      predict_next_in_cycle h pat = Some [pat ! (length (non_empate h) mod length pat)])
   \<and> (pat \<noteq> [] \<and> non_empate h \<noteq> []
        \<and> risk_assessment.level r = ''low'' \<and> manipulation_assessment.level m = ''low''
        \<and> find (\<lambda>p. type p = ''compensation_pending'') ps = None
        \<and> find (\<lambda>p. type p = ''hidden_cycle'' \<and> 2 \<le> get_repetitions p) ps = Some cp
        \<and> pattern cp = Some pat \<longrightarrow>
      (\<exists>pr. make_prediction h ps r m = Inr pr
          \<and> color pr = Some [pat ! (length (non_empate h) mod length pat)]
          \<and> confidence pr = min 70 (50 + 5 * rat_of_int (get_repetitions cp))
          \<and> 2 \<le> get_repetitions cp
          \<and> strategy pr = ''SEGUIR CICLO''))"
proof (intro conjI impI)
  assume "pat \<noteq> [] \<and> non_empate h \<noteq> []"
  then show "predict_next_in_cycle h pat = Some [pat ! (length (non_empate h) mod length pat)]"
    by (simp add: predict_next_in_cycle_value)
next
  assume a: "pat \<noteq> [] \<and> non_empate h \<noteq> []
    \<and> risk_assessment.level r = ''low'' \<and> manipulation_assessment.level m = ''low''
    \<and> find (\<lambda>p. type p = ''compensation_pending'') ps = None
    \<and> find (\<lambda>p. type p = ''hidden_cycle'' \<and> 2 \<le> get_repetitions p) ps = Some cp
    \<and> pattern cp = Some pat"
  then have next_color: "predict_next_in_cycle h pat
      = Some [pat ! (length (non_empate h) mod length pat)]"
    by (simp add: predict_next_in_cycle_value)
  from a have "2 \<le> get_repetitions cp"
    by (auto simp add: find_Some_iff)
  then obtain n where n: "repetitions cp = Some n" "get_repetitions cp = n" "2 \<le> n"
    by (cases "repetitions cp") (simp_all add: get_repetitions_def)
  from a have lv: "risk_assessment.level r = ''low''" "manipulation_assessment.level m = ''low''"
      "find (\<lambda>p. type p = ''compensation_pending'') ps = None"
      "find (\<lambda>p. type p = ''hidden_cycle'' \<and> 2 \<le> get_repetitions p) ps = Some cp"
      "pattern cp = Some pat"
    by simp_all
  show "\<exists>pr. make_prediction h ps r m = Inr pr
          \<and> color pr = Some [pat ! (length (non_empate h) mod length pat)]
          \<and> confidence pr = min 70 (50 + 5 * rat_of_int (get_repetitions cp))
          \<and> 2 \<le> get_repetitions cp
          \<and> strategy pr = ''SEGUIR CICLO''"
    using n by (simp add: make_prediction_def follow_cycle_def lv next_color mult.commute)
qed

text \<open>
  The history V, V, E, C, C against the cycle string CVV: the scan breaks at index 0, and
  the prediction is still made, V with confidence 60.
\<close>

theorem C4_cycle_continuation_witness:
  "''CVV'' \<noteq> [] \<and> non_empate [''V'', ''V'', ''E'', ''C'', ''C''] \<noteq> []
   \<and> cycle_scan ''CVV'' (non_empate [''V'', ''V'', ''E'', ''C'', ''C'']) = 0
   \<and> find (\<lambda>p. type p = ''compensation_pending'') [hidden_cycle 3 ''CVV'' 2] = None
   \<and> find (\<lambda>p. type p = ''hidden_cycle'' \<and> 2 \<le> get_repetitions p) [hidden_cycle 3 ''CVV'' 2]
       = Some (hidden_cycle 3 ''CVV'' 2)
   \<and> pattern (hidden_cycle 3 ''CVV'' 2) = Some ''CVV''
   \<and> predict_next_in_cycle [''V'', ''V'', ''E'', ''C'', ''C''] ''CVV'' = Some ''V''
   \<and> (\<exists>pr. make_prediction [''V'', ''V'', ''E'', ''C'', ''C''] [hidden_cycle 3 ''CVV'' 2]
              \<lparr>risk_assessment.level = ''low'', score = 0, factors = []\<rparr>
              \<lparr>manipulation_assessment.level = ''low'', score = 0, signs = []\<rparr> = Inr pr
          \<and> color pr = Some ''V'' \<and> confidence pr = 60 \<and> strategy pr = ''SEGUIR CICLO'')"
proof -
  have a: "''CVV'' \<noteq> [] \<and> non_empate [''V'', ''V'', ''E'', ''C'', ''C''] \<noteq> []"
    by (simp add: non_empate_def)
  have s: "cycle_scan ''CVV'' (non_empate [''V'', ''V'', ''E'', ''C'', ''C'']) = 0"
    by code_simp
  have b: "find (\<lambda>p. type p = ''compensation_pending'') [hidden_cycle 3 ''CVV'' 2] = None"
    by (simp add: hidden_cycle_def common_keys_def)
  have c: "find (\<lambda>p. type p = ''hidden_cycle'' \<and> 2 \<le> get_repetitions p) [hidden_cycle 3 ''CVV'' 2]
       = Some (hidden_cycle 3 ''CVV'' 2)"
    by (simp add: hidden_cycle_def common_keys_def get_repetitions_def)
  have d: "pattern (hidden_cycle 3 ''CVV'' 2) = Some ''CVV''"
    by (simp add: hidden_cycle_def common_keys_def)
  have e: "get_repetitions (hidden_cycle 3 ''CVV'' 2) = 2"
    by (simp add: hidden_cycle_def common_keys_def get_repetitions_def)
  have f: "''CVV'' ! (length (non_empate [''V'', ''V'', ''E'', ''C'', ''C'']) mod length ''CVV'') = CHR ''V''"
    by code_simp
  have l: "risk_assessment.level \<lparr>risk_assessment.level = ''low'', score = 0, factors = []\<rparr> = ''low''"
    "manipulation_assessment.level \<lparr>manipulation_assessment.level = ''low'', score = 0, signs = []\<rparr> = ''low''"
    by simp_all
  from C4_cycle_continuation [of "''CVV''" "[''V'', ''V'', ''E'', ''C'', ''C'']"
      "\<lparr>risk_assessment.level = ''low'', score = 0, factors = []\<rparr>"
      "\<lparr>manipulation_assessment.level = ''low'', score = 0, signs = []\<rparr>"
      "[hidden_cycle 3 ''CVV'' 2]" "hidden_cycle 3 ''CVV'' 2"]
    a b c d l
  have "predict_next_in_cycle [''V'', ''V'', ''E'', ''C'', ''C''] ''CVV''
      = Some [''CVV'' ! (length (non_empate [''V'', ''V'', ''E'', ''C'', ''C'']) mod length ''CVV'')]
    \<and> (\<exists>pr. make_prediction [''V'', ''V'', ''E'', ''C'', ''C''] [hidden_cycle 3 ''CVV'' 2]
              \<lparr>risk_assessment.level = ''low'', score = 0, factors = []\<rparr>
              \<lparr>manipulation_assessment.level = ''low'', score = 0, signs = []\<rparr> = Inr pr
          \<and> color pr = Some [''CVV'' ! (length (non_empate [''V'', ''V'', ''E'', ''C'', ''C'']) mod length ''CVV'')]
          \<and> confidence pr = min 70 (50 + 5 * rat_of_int (get_repetitions (hidden_cycle 3 ''CVV'' 2)))
          \<and> strategy pr = ''SEGUIR CICLO'')"
    by blast
  then have "predict_next_in_cycle [''V'', ''V'', ''E'', ''C'', ''C''] ''CVV'' = Some ''V''
    \<and> (\<exists>pr. make_prediction [''V'', ''V'', ''E'', ''C'', ''C''] [hidden_cycle 3 ''CVV'' 2]
              \<lparr>risk_assessment.level = ''low'', score = 0, factors = []\<rparr>
              \<lparr>manipulation_assessment.level = ''low'', score = 0, signs = []\<rparr> = Inr pr
          \<and> color pr = Some ''V'' \<and> confidence pr = 60 \<and> strategy pr = ''SEGUIR CICLO'')"
    by (simp only: e f) simp
  with a s b c d show ?thesis by blast
qed

subsection \<open>The compensation detector\<close>

lemma window_branches_at_most_one:
  "length ((if (b::rat) < 1 / 10 \<and> P then [x] else []) @ (if 4 / 10 < b then [y] else [])) \<le> 1"
proof -
  have "\<not> (b < 1 / 10 \<and> 4 / 10 < b)" by linarith
  then show ?thesis by (cases "b < 1 / 10 \<and> P"; cases "4 / 10 < b") auto
qed

lemma window_branches_member:
  "p \<in> set ((if A then [x] else []) @ (if B then [y] else [])) \<Longrightarrow> p = x \<and> A \<or> p = y \<and> B"
  by (cases A; cases B) auto

lemma compensation_window_cases:
  assumes "p \<in> set (compensation_window ne W)"
  obtains c v b where "W \<le> length ne"
    and "c = int (count_list (py_last W ne) ''C'')"
    and "v = int (count_list (py_last W ne) ''V'')"
    and "b = rat_of_int \<bar>c - v\<bar> / rat_of_nat W"
    and "p = artificial_balance W c v b \<and> b < 1 / 10 \<and> 15 \<le> W
         \<or> p = compensation_pending W c v \<bar>c - v\<bar> b (if c < v then ''C'' else ''V'') \<and> 4 / 10 < b"
proof -
  have W: "W \<le> length ne"
  proof (rule ccontr)
    assume "\<not> W \<le> length ne"
    then have "compensation_window ne W = []" by (simp add: compensation_window_def)
    with assms show False by simp
  qed
  from assms W window_branches_member show ?thesis
    by (intro that [OF W refl refl refl]) (simp only: compensation_window_def Let_def if_True)
qed

lemma compensation_window_size:
  assumes "p \<in> set (compensation_window ne W)"
  shows "window_size p = Some (int W)"
  using assms
  by (rule compensation_window_cases)
    (auto simp add: artificial_balance_def compensation_pending_def common_keys_def)

lemma compensation_window_at_most_one: "length (compensation_window ne W) \<le> 1"
proof (cases "W \<le> length ne")
  case True
  then show ?thesis
    by (simp only: compensation_window_def Let_def if_True window_branches_at_most_one)
next
  case False
  then show ?thesis by (simp add: compensation_window_def)
qed

lemma filter_window_same:
  "filter (\<lambda>p. window_size p = Some (int W)) (compensation_window ne W) = compensation_window ne W"
  by (rule filter_True) (simp add: compensation_window_size)

lemma filter_window_other:
  "W \<noteq> W' \<Longrightarrow> filter (\<lambda>p. window_size p = Some (int W)) (compensation_window ne W') = []"
  by (rule filter_False) (auto dest: compensation_window_size)

lemma compensation_window_pending:
  assumes "p \<in> set (compensation_window ne W)" and "type p = ''compensation_pending''"
  shows "let window = py_last W ne;
             c = int (count_list window ''C'');
             v = int (count_list window ''V'')
         in strength p = rat_of_int \<bar>c - v\<bar> / rat_of_nat W \<and> 4 / 10 < strength p
            \<and> (if c < v then favored_color p = Some ''C''
                else favored_color p = Some ''V'' \<and> v < c)"
proof -
  from assms(1) obtain c v b where c: "c = int (count_list (py_last W ne) ''C'')"
    and v: "v = int (count_list (py_last W ne) ''V'')"
    and b: "b = rat_of_int \<bar>c - v\<bar> / rat_of_nat W"
    and p: "p = artificial_balance W c v b \<and> b < 1 / 10 \<and> 15 \<le> W
         \<or> p = compensation_pending W c v \<bar>c - v\<bar> b (if c < v then ''C'' else ''V'') \<and> 4 / 10 < b"
    by (rule compensation_window_cases)
  have "type (artificial_balance W c v b) \<noteq> ''compensation_pending''"
    by (simp add: artificial_balance_def common_keys_def)
  with p assms(2) have p': "p = compensation_pending W c v \<bar>c - v\<bar> b (if c < v then ''C'' else ''V'')"
    and big: "4 / 10 < b"
    by auto
  from p' have s: "strength p = b"
    and f: "favored_color p = Some (if c < v then ''C'' else ''V'')"
    by (simp_all add: compensation_pending_def common_keys_def)
  have "c \<noteq> v"
  proof
    assume "c = v"
    with b have "b = 0" by simp
    with big show False by simp
  qed
  then have "c < v \<or> v < c" by linarith
  with s f big b show ?thesis
    unfolding Let_def c [symmetric] v [symmetric] by auto
qed

text \<open>
  C6: for each window size 12, 15 and 18 the detector emits at most one pattern (never
  both artificial\_balance and compensation\_pending), and every compensation\_pending
  pattern it emits belongs to one of the three windows, has as strength the balance ratio
  of that window (the absolute difference of the counts of C and V over the window size),
  which exceeds 0.4, and names as favored color the one of C and V with strictly fewer
  occurrences in the window.
\<close>

theorem C6_compensation_exclusive:
  "(\<forall>W \<in> {12, 15, 18}.
      length (filter (\<lambda>p. window_size p = Some (int W)) (analyze_compensation_patterns h)) \<le> 1)
   \<and> (\<forall>p \<in> set (analyze_compensation_patterns h). type p = ''compensation_pending'' \<longrightarrow>
        (\<exists>W \<in> {12, 15, 18}. window_size p = Some (int W) \<and>
           (let window = py_last W (non_empate h);
                c = int (count_list window ''C'');
                v = int (count_list window ''V'')
            in strength p = rat_of_int \<bar>c - v\<bar> / rat_of_nat W \<and> 4 / 10 < strength p
               \<and> (if c < v then favored_color p = Some ''C''
                   else favored_color p = Some ''V'' \<and> v < c))))"
proof (intro conjI ballI impI)
  fix W :: nat assume "W \<in> {12, 15, 18}"
  then consider "W = 12" | "W = 15" | "W = 18" by blast
  then show "length (filter (\<lambda>p. window_size p = Some (int W)) (analyze_compensation_patterns h)) \<le> 1"
  proof cases
    case 1
    then show ?thesis
      using compensation_window_at_most_one [of "non_empate h" 12]
      by (simp add: analyze_compensation_patterns_def Let_def filter_window_same
          filter_window_other del: of_nat_numeral)
  next
    case 2
    then show ?thesis
      using compensation_window_at_most_one [of "non_empate h" 15]
      by (simp add: analyze_compensation_patterns_def Let_def filter_window_same
          filter_window_other del: of_nat_numeral)
  next
    case 3
    then show ?thesis
      using compensation_window_at_most_one [of "non_empate h" 18]
      by (simp add: analyze_compensation_patterns_def Let_def filter_window_same
          filter_window_other del: of_nat_numeral)
  qed
next
  fix p assume p: "p \<in> set (analyze_compensation_patterns h)"
    and t: "type p = ''compensation_pending''"
  from p obtain W where W: "W \<in> {12, 15, 18}" "p \<in> set (compensation_window (non_empate h) W)"
    by (auto simp add: analyze_compensation_patterns_def Let_def split: if_splits)
  from compensation_window_size [OF W(2)] compensation_window_pending [OF W(2) t] W(1)
  show "\<exists>W \<in> {12, 15, 18}. window_size p = Some (int W) \<and>
           (let window = py_last W (non_empate h);
                c = int (count_list window ''C'');
                v = int (count_list window ''V'')
            in strength p = rat_of_int \<bar>c - v\<bar> / rat_of_nat W \<and> 4 / 10 < strength p
               \<and> (if c < v then favored_color p = Some ''C''
                   else favored_color p = Some ''V'' \<and> v < c))"
    by blast
qed

text \<open>
  Sixteen C followed by four V: the window of 15 holds 11 C and 4 V, balance ratio 7/15,
  and V is the favored color.
\<close>

theorem C6_compensation_exclusive_witness:
  "(15::nat) \<in> {12, 15, 18}
   \<and> length (filter (\<lambda>p. window_size p = Some (int 15))
        (analyze_compensation_patterns (replicate 16 ''C'' @ replicate 4 ''V''))) \<le> 1
   \<and> compensation_pending 15 11 4 7 (7 / 15) ''V''
        \<in> set (analyze_compensation_patterns (replicate 16 ''C'' @ replicate 4 ''V''))
   \<and> type (compensation_pending 15 11 4 7 (7 / 15) ''V'') = ''compensation_pending''
   \<and> (\<exists>W \<in> {12, 15, 18}.
         window_size (compensation_pending 15 11 4 7 (7 / 15) ''V'') = Some (int W) \<and>
           (let window = py_last W (non_empate (replicate 16 ''C'' @ replicate 4 ''V''));
                c = int (count_list window ''C'');
                v = int (count_list window ''V'')
            in strength (compensation_pending 15 11 4 7 (7 / 15) ''V'')
                 = rat_of_int \<bar>c - v\<bar> / rat_of_nat W
               \<and> 4 / 10 < strength (compensation_pending 15 11 4 7 (7 / 15) ''V'')
               \<and> (if c < v
                   then favored_color (compensation_pending 15 11 4 7 (7 / 15) ''V'') = Some ''C''
                   else favored_color (compensation_pending 15 11 4 7 (7 / 15) ''V'') = Some ''V''
                        \<and> v < c)))"
proof -
  have a: "(15::nat) \<in> {12, 15, 18}" by simp
  have b: "compensation_pending 15 11 4 7 (7 / 15) ''V''
        \<in> set (analyze_compensation_patterns (replicate 16 ''C'' @ replicate 4 ''V''))"
    by code_simp
  have c: "type (compensation_pending 15 11 4 7 (7 / 15) ''V'') = ''compensation_pending''"
    by (simp add: compensation_pending_def common_keys_def)
  note inst = C6_compensation_exclusive [of "replicate 16 ''C'' @ replicate 4 ''V''"]
  from inst [THEN conjunct1, THEN bspec, OF a] inst [THEN conjunct2, THEN bspec, OF b, THEN mp, OF c]
    a b c
  show ?thesis by (intro conjI)
qed

subsection \<open>A micro-alternation stops the prediction\<close>

lemma micro_alternation_member:
  assumes "p \<in> set (analyze_micro_patterns h)" and "type p = ''micro_alternation''"
  shows "\<exists>k. p = micro_alternation k"
proof -
  have other: "type (micro_double_pattern k) \<noteq> ''micro_alternation''" for k
    by (simp add: micro_double_pattern_def common_keys_def)
  from assms show ?thesis
    by (auto simp add: analyze_micro_patterns_def Let_def other split: if_splits)
qed

lemma manipulation_step_artificial:
  "90 \<le> predictability p \<Longrightarrow> fst (manipulation_step acc p) = fst acc + 80"
  by (cases acc) (simp add: manipulation_step_def)

lemma foldl_manipulation_step_artificial:
  "p \<in> set ps \<Longrightarrow> 90 \<le> predictability p \<Longrightarrow>
   fst acc + 80 \<le> fst (foldl manipulation_step acc ps)"
proof (induction ps arbitrary: acc)
  case Nil
  then show ?case by simp
next
  case (Cons q qs)
  show ?case
  proof (cases "p = q")
    case True
    with Cons.prems have "fst (manipulation_step acc q) = fst acc + 80"
      by (simp add: manipulation_step_artificial)
    with foldl_manipulation_step_mono [of "manipulation_step acc q" qs]
    show ?thesis by simp
  next
    case False
    with Cons.prems have "p \<in> set qs" by simp
    from Cons.IH [OF this Cons.prems(2), of "manipulation_step acc q"]
      manipulation_step_mono [of acc q]
    show ?thesis by simp
  qed
qed

lemma detect_manipulation_level:
  "manipulation_assessment.level (detect_manipulation ps r) =
     (if 80 \<le> fst (foldl manipulation_step (0, []) ps) then ''critical''
      else if 60 \<le> fst (foldl manipulation_step (0, []) ps) then ''high''
      else if 35 \<le> fst (foldl manipulation_step (0, []) ps) then ''medium''
      else ''low'')"
  by (simp add: detect_manipulation_def split: prod.splits)

lemma make_prediction_critical:
  "risk_assessment.level r = ''critical'' \<or> manipulation_assessment.level m = ''critical'' \<Longrightarrow>
   \<exists>p. make_prediction h ps r m = Inr p \<and> color p = None \<and> confidence p = 0
       \<and> strategy p = ''PARAR COMPLETAMENTE''"
  by (auto simp add: make_prediction_def)

text \<open>
  C10: when the micro detector emits a micro\_alternation pattern for a history, that
  pattern has predictability 90, the manipulation score of the pipeline is at least 80 and
  its level critical, and the prediction has no color, confidence 0 and the strategy
  PARAR COMPLETAMENTE.
\<close>

theorem C10_micro_alternation_stops:
  assumes "p \<in> set (analyze_micro_patterns h)" and "type p = ''micro_alternation''"
  shows "predictability p = 90
    \<and> (\<exists>ps r m pr. analyze h = Inr (ps, r, m, pr)
          \<and> 80 \<le> manipulation_assessment.score m
          \<and> manipulation_assessment.level m = ''critical''
          \<and> color pr = None \<and> confidence pr = 0 \<and> strategy pr = ''PARAR COMPLETAMENTE'')"
proof -
  define ps where "ps = analyze_micro_patterns h @ detect_hidden_cycles h
    @ analyze_compensation_patterns h @ analyze_strategic_ties h"
  define r where "r = assess_risk ps"
  define m where "m = detect_manipulation ps r"
  from micro_alternation_member [OF assms] obtain k where "p = micro_alternation k" ..
  then have pred: "predictability p = 90"
    by (simp add: micro_alternation_def common_keys_def)
  from assms(1) have "p \<in> set ps" by (simp add: ps_def)
  from foldl_manipulation_step_artificial [OF this, of "(0, [])"] pred
  have total: "80 \<le> fst (foldl manipulation_step (0, []) ps)" by simp
  then have lvl: "manipulation_assessment.level m = ''critical''"
    by (simp add: m_def detect_manipulation_level)
  from total have sc: "80 \<le> manipulation_assessment.score m"
    by (simp add: m_def detect_manipulation_score)
  from make_prediction_critical [of r m h ps] lvl obtain pr where
    pr: "make_prediction h ps r m = Inr pr" "color pr = None" "confidence pr = 0"
      "strategy pr = ''PARAR COMPLETAMENTE''"
    by blast
  have "analyze h = Inr (ps, r, m, pr)"
    using pr(1) by (simp add: analyze_def Let_def ps_def r_def m_def)
  with pred lvl sc pr show ?thesis by blast
qed

text \<open>The history C, V, C, V, C, V alternates five times.\<close>

theorem C10_micro_alternation_stops_witness:
  "micro_alternation 5 \<in> set (analyze_micro_patterns [''C'', ''V'', ''C'', ''V'', ''C'', ''V''])
   \<and> type (micro_alternation 5) = ''micro_alternation''
   \<and> predictability (micro_alternation 5) = 90
   \<and> (\<exists>ps r m pr. analyze [''C'', ''V'', ''C'', ''V'', ''C'', ''V''] = Inr (ps, r, m, pr)
          \<and> 80 \<le> manipulation_assessment.score m
          \<and> manipulation_assessment.level m = ''critical''
          \<and> color pr = None \<and> confidence pr = 0 \<and> strategy pr = ''PARAR COMPLETAMENTE'')"
proof -
  have a: "micro_alternation 5 \<in> set (analyze_micro_patterns [''C'', ''V'', ''C'', ''V'', ''C'', ''V''])"
    by code_simp
  have b: "type (micro_alternation 5) = ''micro_alternation''"
    by (simp add: micro_alternation_def common_keys_def)
  from C10_micro_alternation_stops [OF a b] a b show ?thesis by blast
qed

subsection \<open>The counter and the most common outcome\<close>

lemma map_of_counter_add:
  "map_of (counter_add kcs x)
     = (map_of kcs)(x \<mapsto> (case map_of kcs x of None \<Rightarrow> 1 | Some c \<Rightarrow> c + 1))"
  by (induction kcs) (auto simp add: fun_eq_iff)

lemma keys_counter_add: "set (map fst (counter_add kcs x)) = insert x (set (map fst kcs))"
  by (induction kcs x rule: counter_add.induct) (simp_all add: insert_commute)

lemma distinct_counter_add:
  "distinct (map fst kcs) \<Longrightarrow> distinct (map fst (counter_add kcs x))"
proof (induction kcs)
  case Nil
  show ?case by simp
next
  case (Cons kc kcs)
  obtain k c where kc: "kc = (k, c)" by (cases kc)
  show ?case
  proof (cases "k = x")
    case True
    with Cons.prems kc show ?thesis by simp
  next
    case False
    from Cons have "distinct (map fst (counter_add kcs x))" by simp
    moreover from Cons.prems kc False have "k \<notin> set (map fst (counter_add kcs x))"
      by (simp only: keys_counter_add) simp
    ultimately show ?thesis using kc False by simp
  qed
qed

lemma map_of_foldl_counter_add:
  "map_of (foldl counter_add acc xs) k =
     (if k \<in> set xs
      then Some ((case map_of acc k of None \<Rightarrow> 0 | Some c \<Rightarrow> c) + int (count_list xs k))
      else map_of acc k)"
proof (induction xs arbitrary: acc)
  case Nil
  show ?case by simp
next
  case (Cons x xs)
  show ?case
    by (simp add: Cons.IH map_of_counter_add split: option.splits)
qed

lemma distinct_foldl_counter_add:
  "distinct (map fst acc) \<Longrightarrow> distinct (map fst (foldl counter_add acc xs))"
  by (induction xs arbitrary: acc) (simp_all add: distinct_counter_add)

lemma set_Counter: "set (Counter xs) = (\<lambda>k. (k, int (count_list xs k))) ` set xs"
proof -
  have d: "distinct (map fst (Counter xs))"
    by (simp add: Counter_def distinct_foldl_counter_add)
  have m: "map_of (Counter xs) k = (if k \<in> set xs then Some (int (count_list xs k)) else None)" for k
    by (simp add: Counter_def map_of_foldl_counter_add)
  show ?thesis
  proof (rule set_eqI)
    fix kc :: "'a \<times> int"
    obtain k c where kc: "kc = (k, c)" by (cases kc)
    have "kc \<in> set (Counter xs) \<longleftrightarrow> map_of (Counter xs) k = Some c"
      using d kc by simp
    also have "\<dots> \<longleftrightarrow> k \<in> set xs \<and> c = int (count_list xs k)"
      by (auto simp add: m)
    also have "\<dots> \<longleftrightarrow> kc \<in> (\<lambda>k. (k, int (count_list xs k))) ` set xs"
      using kc by auto
    finally show "kc \<in> set (Counter xs) \<longleftrightarrow> kc \<in> (\<lambda>k. (k, int (count_list xs k))) ` set xs" .
  qed
qed

lemma py_max_by_snd:
  "snd (py_max_by snd best ys) = fold max (map snd ys) (snd best)"
  by (induction ys arbitrary: best) (simp_all add: max_def)

lemma py_max_by_member: "py_max_by key best ys \<in> set (best # ys)"
  by (induction ys arbitrary: best) auto

lemma most_common_1_count:
  assumes "xs \<noteq> []"
  shows "\<exists>k. most_common_1 (Counter xs) = Inr (k, int (dominant_count xs)) \<and> k \<in> set xs"
proof -
  from assms have "set (Counter xs) \<noteq> {}" by (simp add: set_Counter)
  then obtain kc kcs where C: "Counter xs = kc # kcs" by (cases "Counter xs") auto
  define best where "best = py_max_by snd kc kcs"
  have "snd best = Max (set (map snd (kc # kcs)))"
    by (simp only: best_def py_max_by_snd Max.set_eq_fold list.map)
  also have "set (map snd (kc # kcs)) = (\<lambda>k. int (count_list xs k)) ` set xs"
    by (simp only: C [symmetric] set_map set_Counter image_image snd_conv)
  also have "Max ((\<lambda>k. int (count_list xs k)) ` set xs) = int (Max (count_list xs ` set xs))"
    using assms by (simp add: mono_Max_commute [where f = int, OF monoI] image_image)
  finally have s: "snd best = int (dominant_count xs)"
    using assms by (simp add: dominant_count_def)
  have "best \<in> set (Counter xs)"
    unfolding best_def C by (rule py_max_by_member)
  then have "fst best \<in> set xs" by (auto simp add: set_Counter)
  moreover have "most_common_1 (Counter xs) = Inr (fst best, snd best)"
    by (simp add: most_common_1_def C best_def)
  ultimately show ?thesis using s by auto
qed

subsection \<open>The fallback branch\<close>







subsection \<open>The pipeline signals no error\<close>

lemma micro_patterns_types:
  "p \<in> set (analyze_micro_patterns h) \<Longrightarrow>
   type p = ''micro_double_pattern'' \<or> type p = ''micro_alternation''"
  by (auto simp add: analyze_micro_patterns_def Let_def micro_double_pattern_def
      micro_alternation_def common_keys_def split: if_splits)

lemma hidden_cycles_of_size_keys:
  "p \<in> set (hidden_cycles_of_size ne n) \<Longrightarrow> \<exists>s c. p = hidden_cycle n s c"
  by (auto simp add: hidden_cycles_of_size_def Let_def split: list.splits prod.splits)

lemma hidden_cycles_keys:
  assumes "p \<in> set (detect_hidden_cycles h)"
  shows "\<exists>n s c. p = hidden_cycle n s c"
proof -
  from assms obtain n where "p \<in> set (hidden_cycles_of_size (non_empate h) n)"
    by (auto simp add: detect_hidden_cycles_def Let_def split: if_splits)
  from hidden_cycles_of_size_keys [OF this] show ?thesis by blast
qed

lemma strategic_ties_types:
  "p \<in> set (analyze_strategic_ties h) \<Longrightarrow>
   type p = ''strategic_tie_after_sequence'' \<or> type p = ''strategic_tie_before_reversal''"
  by (auto simp add: analyze_strategic_ties_def tie_patterns_def Let_def
      strategic_tie_after_sequence_def strategic_tie_before_reversal_def common_keys_def
      split: if_splits)

lemma compensation_patterns_keys:
  assumes "p \<in> set (analyze_compensation_patterns h)"
  shows "type p = ''artificial_balance'' \<or> (\<exists>W c v i b u. p = compensation_pending W c v i b u)"
proof -
  from assms obtain W where "p \<in> set (compensation_window (non_empate h) W)"
    by (auto simp add: analyze_compensation_patterns_def Let_def split: if_splits)
  then obtain c v b where
    "p = artificial_balance W c v b \<and> b < 1 / 10 \<and> 15 \<le> W
       \<or> p = compensation_pending W c v \<bar>c - v\<bar> b (if c < v then ''C'' else ''V'') \<and> 4 / 10 < b"
    by (rule compensation_window_cases)
  then show ?thesis
  proof
    assume "p = artificial_balance W c v b \<and> b < 1 / 10 \<and> 15 \<le> W"
    then have "type p = ''artificial_balance''"
      by (simp add: artificial_balance_def common_keys_def)
    then show ?thesis ..
  next
    assume "p = compensation_pending W c v \<bar>c - v\<bar> b (if c < v then ''C'' else ''V'') \<and> 4 / 10 < b"
    then show ?thesis by blast
  qed
qed

lemma detector_patterns_keys:
  assumes "p \<in> set (analyze_micro_patterns h @ detect_hidden_cycles h
      @ analyze_compensation_patterns h @ analyze_strategic_ties h)"
  shows "(type p = ''compensation_pending'' \<longrightarrow> favored_color p \<noteq> None)
    \<and> (type p = ''hidden_cycle'' \<longrightarrow> pattern p \<noteq> None \<and> repetitions p \<noteq> None)"
proof -
  from assms consider "p \<in> set (analyze_micro_patterns h)" | "p \<in> set (detect_hidden_cycles h)"
    | "p \<in> set (analyze_compensation_patterns h)" | "p \<in> set (analyze_strategic_ties h)"
    by auto
  then show ?thesis
  proof cases
    case 1
    from micro_patterns_types [OF this] show ?thesis by auto
  next
    case 2
    from hidden_cycles_keys [OF this] show ?thesis
      by (auto simp add: hidden_cycle_def common_keys_def)
  next
    case 3
    from compensation_patterns_keys [OF this] show ?thesis
      by (auto simp add: compensation_pending_def common_keys_def)
  next
    case 4
    from strategic_ties_types [OF this] show ?thesis by auto
  qed
qed

lemma bet_on_dominant_total: "\<exists>p. bet_on_dominant h pred = Inr p"
proof (cases "non_empate h = []")
  case True
  then show ?thesis by (simp add: bet_on_dominant_def)
next
  case False
  from most_common_1_count [OF this] obtain k where
    "most_common_1 (Counter (non_empate h)) = Inr (k, int (dominant_count (non_empate h)))"
    by blast
  with False show ?thesis by (simp add: bet_on_dominant_def Let_def)
qed

lemma follow_cycle_total:
  assumes "\<And>p. p \<in> set ps \<Longrightarrow> type p = ''hidden_cycle'' \<Longrightarrow>
      pattern p \<noteq> None \<and> repetitions p \<noteq> None"
  shows "\<exists>f. follow_cycle h ps r m pred = Inr f"
proof (cases "find (\<lambda>p. type p = ''hidden_cycle'' \<and> 2 \<le> get_repetitions p) ps")
  case None
  then show ?thesis by (simp add: follow_cycle_def)
next
  case (Some cp)
  then have "cp \<in> set ps" and "type cp = ''hidden_cycle''"
    by (auto simp add: find_Some_iff)
  from assms [OF this] obtain s n where "pattern cp = Some s" "repetitions cp = Some n"
    by auto
  with Some show ?thesis
    by (simp add: follow_cycle_def split: option.splits)
qed

lemma make_prediction_total:
  assumes "\<And>p. p \<in> set ps \<Longrightarrow>
      (type p = ''compensation_pending'' \<longrightarrow> favored_color p \<noteq> None)
      \<and> (type p = ''hidden_cycle'' \<longrightarrow> pattern p \<noteq> None \<and> repetitions p \<noteq> None)"
  shows "\<exists>pr. make_prediction h ps r m = Inr pr"
proof -
  define pred where "pred = \<lparr>color = None, confidence = 0, reasoning = [],
    strategy = ''AGUARDAR MELHORES CONDI'' @ [CHR 0xC3, CHR 0x87, CHR 0xC3, CHR 0x95] @ ''ES''\<rparr>"
  from assms have "\<exists>f. follow_cycle h ps r m pred = Inr f"
    by (intro follow_cycle_total) simp
  then obtain f where f: "follow_cycle h ps r m pred = Inr f" ..
  from bet_on_dominant_total obtain b where b: "bet_on_dominant h pred = Inr b" ..
  have comp: "favored_color cp \<noteq> None"
    if "find (\<lambda>p. type p = ''compensation_pending'') ps = Some cp" for cp
  proof -
    from that have "cp \<in> set ps" and "type cp = ''compensation_pending''"
      by (auto simp add: find_Some_iff)
    with assms show ?thesis by blast
  qed
  show ?thesis
    using f b comp
    by (cases f) (auto simp add: make_prediction_def pred_def Let_def split: option.splits)
qed

text \<open>
  C9, as the code has it: for every input sequence, whatever strings it holds, the
  pipeline returns a full result (patterns, risk, manipulation, prediction). No error is
  signalled: the source has no validation of the alphabet, and the patterns its detectors
  build always carry the keys the predictor subscripts.
\<close>

theorem C9_analyze_always_returns:
  "\<exists>patterns risk' manipulation' prediction.
     analyze history = Inr (patterns, risk', manipulation', prediction)"
proof -
  define ps where "ps = analyze_micro_patterns history @ detect_hidden_cycles history
    @ analyze_compensation_patterns history @ analyze_strategic_ties history"
  have "\<exists>pr. make_prediction history ps (assess_risk ps)
      (detect_manipulation ps (assess_risk ps)) = Inr pr"
  proof (rule make_prediction_total)
    fix p assume "p \<in> set ps"
    then show "(type p = ''compensation_pending'' \<longrightarrow> favored_color p \<noteq> None)
      \<and> (type p = ''hidden_cycle'' \<longrightarrow> pattern p \<noteq> None \<and> repetitions p \<noteq> None)"
      unfolding ps_def by (rule detector_patterns_keys)
  qed
  then show ?thesis
    by (auto simp add: analyze_def Let_def ps_def)
qed

text \<open>
  C9 as stated fails: the history with the single outcome X, outside the alphabet, is
  analyzed as any other; X counts as a non-tie outcome and becomes the predicted color.
\<close>

theorem C9_invalid_outcome_counterexample:
  "''X'' \<notin> {''C'', ''V'', ''E''}
   \<and> analyze [''X''] =
       Inr ([], \<lparr>risk_assessment.level = ''low'', score = 0, factors = []\<rparr>,
            \<lparr>manipulation_assessment.level = ''low'', score = 0, signs = []\<rparr>,
            \<lparr>color = Some ''X'', confidence = 75,
             reasoning = ''Aposta baseada em frequ'' @ [CHR 0xC3, CHR 0xAA] @ ''ncia hist''
               @ [CHR 0xC3, CHR 0xB3] @ ''rica de '' @ [CHR 0x22] @ ''X'' @ [CHR 0x22] @ '' (1/1)'',
             strategy = ''APOSTAR NA PRINCIPAL COR''\<rparr>)"
  by code_simp

subsection \<open>Subscripts stay in range\<close>

text \<open>
  The detectors subscript lists only inside their bounds: the pairs of \<^verbatim>\<open>last6\<close>, the
  indices 0 to 5 of the non-tie window, the three outcomes before a tie at position 3 or
  later (the source checks the lengths of \<^verbatim>\<open>before\<close> and \<^verbatim>\<open>after\<close> itself before it reads
  them), the positions of \<^verbatim>\<open>enumerate\<close>, and the index into the cycle string.
\<close>

lemma last6_subscripts:
  "\<not> length results < 6 \<Longrightarrow> i \<in> set [0, 2, 4] \<Longrightarrow> i + 1 < length (py_last 6 results)"
  by (auto simp add: py_last_def)

lemma micro_alternations_subscripts:
  "i \<in> set [1 ..< min 6 (length xs)] \<Longrightarrow> i < length xs \<and> i - 1 < length xs"
  by auto

lemma tie_before_length:
  "3 \<le> tie_pos \<Longrightarrow> tie_pos < length results \<Longrightarrow>
   length (py_slice (max 0 (tie_pos - 3)) tie_pos results) = 3"
  by (simp add: py_slice_def)

lemma tie_positions_subscripts:
  "i \<in> set [0 ..< length results] \<Longrightarrow> i < length results"
  by simp

lemma cycle_subscripts:
  "pat \<noteq> [] \<Longrightarrow> i mod length pat < length pat"
  by simp

subsection \<open>The cycle branch inside the pipeline\<close>

text \<open>
  A hidden cycle is emitted for at least 2 repetitions, so its predictability is at least
  80 and the manipulation level of the pipeline is high or critical: with the patterns of
  the detectors themselves, the predictor returns before its cycle branch.
\<close>

lemma most_repeated_member:
  assumes "p \<in> set (case xs of [] \<Rightarrow> []
      | r # rs \<Rightarrow> (case py_max_by snd r rs of (s, c) \<Rightarrow> [f s c]))"
  shows "\<exists>s c. p = f s c \<and> (s, c) \<in> set xs"
proof (cases xs)
  case Nil
  with assms show ?thesis by simp
next
  case (Cons r rs)
  obtain s c where sc: "py_max_by snd r rs = (s, c)" by (cases "py_max_by snd r rs")
  from py_max_by_member [of snd r rs] have "(s, c) \<in> set xs"
    by (simp only: Cons sc)
  moreover from assms have "p = f s c" by (simp add: Cons sc)
  ultimately show ?thesis by blast
qed

lemma hidden_cycles_of_size_repetitions:
  assumes "p \<in> set (hidden_cycles_of_size ne n)"
  shows "\<exists>s c. p = hidden_cycle n s c \<and> 2 \<le> c"
proof -
  from assms have "\<exists>s c. p = hidden_cycle n s c
      \<and> (s, c) \<in> set (filter (\<lambda>(cycle, count). 2 \<le> count) (Counter (cycles ne n)))"
    unfolding hidden_cycles_of_size_def Let_def by (rule most_repeated_member)
  then show ?thesis by auto
qed

lemma hidden_cycle_predictability:
  assumes "p \<in> set (detect_hidden_cycles h)"
  shows "type p = ''hidden_cycle'' \<and> 80 \<le> predictability p"
proof -
  from assms obtain n where "p \<in> set (hidden_cycles_of_size (non_empate h) n)"
    by (auto simp add: detect_hidden_cycles_def Let_def split: if_splits)
  from hidden_cycles_of_size_repetitions [OF this] obtain s c
    where "p = hidden_cycle n s c" and "2 \<le> c" by blast
  then show ?thesis by (simp add: hidden_cycle_def common_keys_def)
qed

lemma manipulation_step_programmed:
  "80 \<le> predictability p \<Longrightarrow> fst acc + 60 \<le> fst (manipulation_step acc p)"
  by (cases acc) (simp add: manipulation_step_def)

lemma foldl_manipulation_step_programmed:
  "p \<in> set ps \<Longrightarrow> 80 \<le> predictability p \<Longrightarrow>
   fst acc + 60 \<le> fst (foldl manipulation_step acc ps)"
proof (induction ps arbitrary: acc)
  case Nil
  then show ?case by simp
next
  case (Cons q qs)
  show ?case
  proof (cases "p = q")
    case True
    with Cons.prems have "fst acc + 60 \<le> fst (manipulation_step acc q)"
      by (simp add: manipulation_step_programmed)
    with foldl_manipulation_step_mono [of "manipulation_step acc q" qs]
    show ?thesis by simp
  next
    case False
    with Cons.prems have "p \<in> set qs" by simp
    from Cons.IH [OF this Cons.prems(2), of "manipulation_step acc q"]
      manipulation_step_mono [of acc q]
    show ?thesis by simp
  qed
qed

lemma hidden_cycle_never_followed:
  assumes "detect_hidden_cycles h \<noteq> []"
    and "analyze h = Inr (ps, r, m, pr)"
  shows "manipulation_assessment.level m \<in> {''critical'', ''high''}
    \<and> color pr = None \<and> strategy pr \<noteq> ''SEGUIR CICLO''"
proof -
  define qs where "qs = analyze_micro_patterns h @ detect_hidden_cycles h
    @ analyze_compensation_patterns h @ analyze_strategic_ties h"
  from assms(1) obtain p where p: "p \<in> set (detect_hidden_cycles h)"
    by (cases "detect_hidden_cycles h") auto
  then have "p \<in> set qs" by (simp add: qs_def)
  from foldl_manipulation_step_programmed [OF this, of "(0, [])"] hidden_cycle_predictability [OF p]
  have total: "60 \<le> fst (foldl manipulation_step (0, []) qs)" by simp
  from assms(2) have m: "m = detect_manipulation qs (assess_risk qs)"
    and pr: "make_prediction h qs (assess_risk qs) m = Inr pr"
    by (auto simp add: analyze_def Let_def qs_def split: sum.splits)
  from total have lvl: "manipulation_assessment.level m \<in> {''critical'', ''high''}"
    by (simp add: m detect_manipulation_level)
  show ?thesis
  proof (cases "risk_assessment.level (assess_risk qs) = ''critical''
      \<or> manipulation_assessment.level m = ''critical''")
    case True
    from make_prediction_critical [OF this, of h qs] pr lvl show ?thesis by auto
  next
    case False
    with lvl have "manipulation_assessment.level m = ''high''" by auto
    with False pr lvl show ?thesis
      by (auto simp add: make_prediction_def Let_def)
  qed
qed

end
